theory Spec2Isabelle
  imports Main
begin

section \<open>Python values stored in documents\<close>

text \<open>
  A Firestore document is a Python dict from field names to dynamically typed values.
  The values covered here are \<open>None\<close>, \<open>bool\<close>, \<open>int\<close> and \<open>str\<close> (the atoms) and
  lists, tuples and sets of atoms (a set is given by its elements in iteration order).
  A dict is an association list; \<open>d.get(k, default)\<close> reads the first binding of \<open>k\<close>.
\<close>

datatype atom = ANone | ABool bool | AInt int | AStr string

datatype pyval = Atom atom | PList "atom list" | PTuple "atom list" | PSet "atom list"

type_synonym document = "(string \<times> pyval) list"

definition dict_get :: "document \<Rightarrow> string \<Rightarrow> pyval \<Rightarrow> pyval" where
  "dict_get d k dflt = (case map_of d k of None \<Rightarrow> dflt | Some v \<Rightarrow> v)"

text \<open>Truth value of an atom (\<open>if item:\<close>).\<close>

fun truthy_atom :: "atom \<Rightarrow> bool" where
  "truthy_atom ANone = False"
| "truthy_atom (ABool b) = b"
| "truthy_atom (AInt i) = (i \<noteq> 0)"
| "truthy_atom (AStr s) = (s \<noteq> [])"

text \<open>\<open>str(x)\<close> on atoms: decimal digits for an int, \<open>True\<close>/\<open>False\<close> for a bool.\<close>

fun str_nat :: "nat \<Rightarrow> string" where
  "str_nat n = (if n < 10 then [char_of (48 + n)]
                else str_nat (n div 10) @ [char_of (48 + n mod 10)])"

declare str_nat.simps [simp del]

definition str_int :: "int \<Rightarrow> string" where
  "str_int i = (if i < 0 then CHR ''-'' # str_nat (nat (- i)) else str_nat (nat i))"

fun str_atom :: "atom \<Rightarrow> string" where
  "str_atom ANone = ''None''"
| "str_atom (ABool b) = (if b then ''True'' else ''False'')"
| "str_atom (AInt i) = str_int i"
| "str_atom (AStr s) = s"

text \<open>
  \<open>s.strip()\<close>: leading and trailing whitespace removed. The whitespace characters
  below code point 256 are 9 to 13, 28 to 32, 133 and 160.
\<close>

definition is_space :: "char \<Rightarrow> bool" where
  "is_space c = (let n = (of_char c :: nat) in
     (9 \<le> n \<and> n \<le> 13) \<or> (28 \<le> n \<and> n \<le> 32) \<or> n = 133 \<or> n = 160)"

definition strip :: "string \<Rightarrow> string" where
  "strip s = rev (dropWhile is_space (rev (dropWhile is_space s)))"

text \<open>
  Exceptions. A \<open>store_error\<close> is what the Firestore client raises: the first six are
  classes derived from \<open>GoogleAPIError\<close> (\<open>InvalidArgument\<close> is the malformed request),
  the last stands for any exception that is not.
\<close>

datatype store_error =
    NotFound | ResourceExhausted | DeadlineExceeded | InvalidArgument | PermissionDenied
  | OtherGoogleAPIError | NonGoogleError

datatype exc =
    StoreError store_error
  | RuntimeError
  | TypeError
  | ProfileNotFoundException string
  | RetryError exc

text \<open>
  The operand types for which \<open>a + b\<close> is defined: two lists, two tuples, two strings,
  two numbers (a bool is an int). Every other pair raises \<open>TypeError\<close>.
\<close>

fun num_val :: "atom \<Rightarrow> int option" where
  "num_val (ABool b) = Some (if b then 1 else 0)"
| "num_val (AInt i) = Some i"
| "num_val _ = None"

fun py_add :: "pyval \<Rightarrow> pyval \<Rightarrow> exc + pyval" where
  "py_add (PList xs) (PList ys) = Inr (PList (xs @ ys))"
| "py_add (PTuple xs) (PTuple ys) = Inr (PTuple (xs @ ys))"
| "py_add (Atom (AStr s)) (Atom (AStr t)) = Inr (Atom (AStr (s @ t)))"
| "py_add (Atom a) (Atom b) =
     (case (num_val a, num_val b) of
        (Some i, Some j) \<Rightarrow> Inr (Atom (AInt (i + j)))
      | _ \<Rightarrow> Inl TypeError)"
| "py_add _ _ = Inl TypeError"

text \<open>
  Equality of atoms as \<open>==\<close> has it: \<open>True == 1\<close> and \<open>False == 0\<close>, a string equals
  only a string.
\<close>

fun py_eq :: "atom \<Rightarrow> atom \<Rightarrow> bool" where
  "py_eq ANone ANone = True"
| "py_eq (AStr s) (AStr t) = (s = t)"
| "py_eq a b = (case (num_val a, num_val b) of (Some i, Some j) \<Rightarrow> i = j | _ \<Rightarrow> False)"

text \<open>
  \<open>list(set(xs))\<close>: one representative of each class of equal elements. The iteration
  order of a set is not fixed by the language; the model keeps the order of first
  occurrence, and the theorems below speak of the elements only.
\<close>

fun dedupe :: "atom list \<Rightarrow> atom list \<Rightarrow> atom list" where
  "dedupe seen [] = seen"
| "dedupe seen (x # xs) = (if list_ex (py_eq x) seen then dedupe seen xs
                           else dedupe (seen @ [x]) xs)"

fun list_of_set :: "pyval \<Rightarrow> exc + atom list" where
  "list_of_set (PList xs) = Inr (dedupe [] xs)"
| "list_of_set (PTuple xs) = Inr (dedupe [] xs)"
| "list_of_set (PSet xs) = Inr (dedupe [] xs)"
| "list_of_set (Atom (AStr s)) = Inr (dedupe [] (map (\<lambda>c. AStr [c]) s))"
| "list_of_set (Atom _) = Inl TypeError"

text \<open>\<open>x in xs\<close> for a string \<open>x\<close> and a list \<open>xs\<close>.\<close>

definition py_in :: "string \<Rightarrow> atom list \<Rightarrow> bool" where
  "py_in x xs = list_ex (py_eq (AStr x)) xs"

section \<open>The Firestore service (database/firestore.py)\<close>

text \<open>
  The store is outside the program. A point read of \<open>collection/doc_id\<close> either raises
  or gives a snapshot, absent (\<open>exists\<close> false) or with its dict. A streamed query for
  one chunk either raises or gives the documents; its answer may differ from one call
  to the next, so it also depends on which chunk of the batch asks and on the number
  of the attempt.
\<close>

record AsyncClient =
  document_get :: "string \<Rightarrow> string \<Rightarrow> store_error + document option"
  query_stream :: "string \<Rightarrow> string \<Rightarrow> string list \<Rightarrow> string option \<Rightarrow> nat \<Rightarrow> nat
                     \<Rightarrow> store_error + document list"

record FirestoreService =
  project_id :: string
  fs_client :: "AsyncClient option"
  is_initialized :: bool

text \<open>The \<open>client\<close> property: an explicit error when the service was not initialised.\<close>

definition client :: "FirestoreService \<Rightarrow> exc + AsyncClient" where
  "client fs = (case fs_client fs of None \<Rightarrow> Inl RuntimeError | Some c \<Rightarrow> Inr c)"

text \<open>
  \<open>get_document\<close>: \<open>None\<close> for an absent document and for a \<open>NotFound\<close> raised by the
  store; every other exception is logged and raised again.
\<close>

definition get_document :: "FirestoreService \<Rightarrow> string \<Rightarrow> string \<Rightarrow> exc + document option" where
  "get_document fs collection doc_id =
     (case client fs of
        Inl e \<Rightarrow> Inl e
      | Inr c \<Rightarrow>
          (case document_get c collection doc_id of
             Inr doc \<Rightarrow> Inr doc
           | Inl NotFound \<Rightarrow> Inr None
           | Inl e \<Rightarrow> Inl (StoreError e)))"

subsection \<open>Chunks\<close>

text \<open>\<open>range(i, n, 10)\<close> and the slice \<open>values[i : j]\<close> for \<open>0 \<le> i \<le> j\<close>.\<close>

function range10 :: "nat \<Rightarrow> nat \<Rightarrow> nat list" where
  "range10 i n = (if i < n then i # range10 (i + 10) n else [])"
  by pat_completeness auto
termination
  by (relation "measure (\<lambda>(i, n). n - i)") auto

declare range10.simps [simp del]

definition slice :: "'a list \<Rightarrow> nat \<Rightarrow> nat \<Rightarrow> 'a list" where
  "slice xs i j = take (j - i) (drop i xs)"

definition chunks_of :: "'a list \<Rightarrow> 'a list list" where
  "chunks_of values = map (\<lambda>i. slice values i (i + 10)) (range10 0 (length values))"

subsection \<open>The retry policy of one chunk\<close>

text \<open>
  \<open>retry_if_exception_type((ResourceExhausted, DeadlineExceeded, GoogleAPIError))\<close>:
  an instance test. Every exception class of the Google API core derives from
  \<open>GoogleAPIError\<close>, the classes for a malformed request and a permission denial too.
\<close>

fun is_GoogleAPIError :: "exc \<Rightarrow> bool" where
  "is_GoogleAPIError (StoreError e) = (e \<noteq> NonGoogleError)"
| "is_GoogleAPIError _ = False"

definition retry_if_exception_type :: "exc \<Rightarrow> bool" where
  "retry_if_exception_type e =
     (e = StoreError ResourceExhausted \<or> e = StoreError DeadlineExceeded \<or> is_GoogleAPIError e)"

text \<open>
  The loop \<open>async for attempt in retryer: with attempt: return await _fetch()\<close>.
  Attempt \<open>n\<close> (counted from 1) is always made. A result is returned at once. An
  exception that the retry predicate rejects is raised as it is. Otherwise
  \<open>stop_after_attempt(max_attempt)\<close> stops when \<open>n \<ge> max_attempt\<close>: with \<open>reraise\<close>
  the last exception is raised, without it a \<open>RetryError\<close> around it. The second
  component is the number of attempts made.
\<close>

function retryer :: "(nat \<Rightarrow> exc + 'a) \<Rightarrow> int \<Rightarrow> bool \<Rightarrow> nat \<Rightarrow> (exc + 'a) \<times> nat" where
  "retryer attempt_fn max_attempt reraise n =
     (case attempt_fn n of
        Inr r \<Rightarrow> (Inr r, n)
      | Inl e \<Rightarrow>
          if \<not> retry_if_exception_type e then (Inl e, n)
          else if int n \<ge> max_attempt then ((if reraise then Inl e else Inl (RetryError e)), n)
          else retryer attempt_fn max_attempt reraise (Suc n))"
  by pat_completeness auto
termination
  by (relation "measure (\<lambda>(f, m, r, n). nat (m - int n))") auto

declare retryer.simps [simp del]

text \<open>\<open>_fetch\<close>: one streamed query for the chunk.\<close>

definition fetch ::
  "FirestoreService \<Rightarrow> string \<Rightarrow> string \<Rightarrow> string option \<Rightarrow> nat \<Rightarrow> string list \<Rightarrow> nat
     \<Rightarrow> exc + document list" where
  "fetch fs collection field order_by chunk_index chunk n =
     (case client fs of
        Inl e \<Rightarrow> Inl e
      | Inr c \<Rightarrow>
          (case query_stream c collection field chunk order_by chunk_index n of
             Inl e \<Rightarrow> Inl (StoreError e)
           | Inr docs \<Rightarrow> Inr docs))"

text \<open>
  \<open>fetch_chunk_with_retry\<close>: the retryer with \<open>reraise=True\<close>, and the handler that
  replaces a \<open>RetryError\<close> by the exception of its last attempt.
\<close>

definition fetch_chunk_with_retry ::
  "FirestoreService \<Rightarrow> string \<Rightarrow> string \<Rightarrow> string option \<Rightarrow> int \<Rightarrow> string list \<Rightarrow> nat
     \<Rightarrow> (exc + document list) \<times> nat" where
  "fetch_chunk_with_retry fs collection field order_by max_retries chunk chunk_index =
     (case retryer (fetch fs collection field order_by chunk_index chunk) max_retries True 1 of
        (Inl (RetryError e), k) \<Rightarrow> (Inl e, k)
      | r \<Rightarrow> r)"

subsection \<open>Gathering the chunks\<close>

text \<open>
  \<open>asyncio.gather\<close> without \<open>return_exceptions\<close>: when every task returns, the list of
  the results in the order of the tasks; otherwise the exception of the task that
  fails first in time. Time is not part of the program, so the order in which the
  tasks finish is a parameter (task indices; tasks it does not name finish after
  those it names, in index order).
\<close>

fun first_raised :: "nat list \<Rightarrow> (exc + 'a) list \<Rightarrow> exc option" where
  "first_raised [] outs = None"
| "first_raised (i # rest) outs =
     (if i < length outs
      then (case outs ! i of Inl e \<Rightarrow> Some e | Inr _ \<Rightarrow> first_raised rest outs)
      else first_raised rest outs)"

fun returned :: "(exc + 'a) list \<Rightarrow> 'a list" where
  "returned [] = []"
| "returned (Inr r # outs) = r # returned outs"
| "returned (Inl e # outs) = returned outs"

definition gather :: "nat list \<Rightarrow> (exc + 'a) list \<Rightarrow> exc + 'a list" where
  "gather finish_order outs =
     (case first_raised (finish_order @ [0..<length outs]) outs of
        Some e \<Rightarrow> Inl e
      | None \<Rightarrow> Inr (returned outs))"

subsection \<open>query_documents_in\<close>

text \<open>
  The result and the number of attempts made by the chunk tasks the call starts
  (each attempt is one store query).
\<close>

definition chunk_tasks ::
  "FirestoreService \<Rightarrow> string \<Rightarrow> string \<Rightarrow> string option \<Rightarrow> int \<Rightarrow> string list list
     \<Rightarrow> ((exc + document list) \<times> nat) list" where
  "chunk_tasks fs collection field order_by max_retries chunks =
     map (\<lambda>(i, chunk). fetch_chunk_with_retry fs collection field order_by max_retries chunk i)
         (enumerate 0 chunks)"

definition query_documents_in ::
  "FirestoreService \<Rightarrow> nat list \<Rightarrow> string \<Rightarrow> string \<Rightarrow> string list \<Rightarrow> string option \<Rightarrow> int
     \<Rightarrow> (exc + document list) \<times> nat" where
  "query_documents_in fs finish_order collection field values order_by max_retries =
     (if values = [] then (Inr [], 0)
      else
        let chunks = chunks_of values;
            tasks = chunk_tasks fs collection field order_by max_retries chunks
        in (case gather finish_order (map fst tasks) of
              Inl e \<Rightarrow> (Inl e, sum_list (map snd tasks))
            | Inr results \<Rightarrow> (Inr (concat results), sum_list (map snd tasks))))"

section \<open>The ACL service (core/security.py)\<close>

text \<open>
  The loop over the items of a list, tuple or set in \<open>_first_non_empty_to_str\<close>.
\<close>

fun scan_items :: "atom list \<Rightarrow> string option" where
  "scan_items [] = None"
| "scan_items (ANone # rest) = scan_items rest"
| "scan_items (AStr s # rest) =
     (let t = strip s in if t \<noteq> [] then Some t else scan_items rest)"
| "scan_items (item # rest) =
     (if truthy_atom item
      then (let t = strip (str_atom item) in if t \<noteq> [] then Some t else scan_items rest)
      else scan_items rest)"

fun first_non_empty_to_str :: "pyval \<Rightarrow> string option" where
  "first_non_empty_to_str (Atom ANone) = None"
| "first_non_empty_to_str (Atom (AStr s)) =
     (let t = strip s in if t \<noteq> [] then Some t else None)"
| "first_non_empty_to_str (PList items) = scan_items items"
| "first_non_empty_to_str (PTuple items) = scan_items items"
| "first_non_empty_to_str (PSet items) = scan_items items"
| "first_non_empty_to_str (Atom a) =
     (if truthy_atom a
      then (let t = strip (str_atom a) in if t \<noteq> [] then Some t else None)
      else None)"

text \<open>\<open>not x\<close> for \<open>x\<close> a string or \<open>None\<close>.\<close>

definition not_str :: "string option \<Rightarrow> bool" where
  "not_str x = (case x of None \<Rightarrow> True | Some s \<Rightarrow> s = [])"

text \<open>The organization identifier: \<open>org_uuid\<close>, and \<open>orgs\<close> when that gave nothing.\<close>

definition extract_org_uuid :: "document \<Rightarrow> string option" where
  "extract_org_uuid profile =
     (let org_uuid = first_non_empty_to_str (dict_get profile ''org_uuid'' (Atom ANone))
      in if not_str org_uuid
         then first_non_empty_to_str (dict_get profile ''orgs'' (Atom ANone))
         else org_uuid)"

text \<open>
  The organization's grant list, with the point reads made: the organization is read
  only for an identifier that is not empty, and an absent or empty organization
  document leaves the list empty.
\<close>

type_synonym read_log = "(string \<times> string) list"

definition load_org_series_acl :: "FirestoreService \<Rightarrow> document \<Rightarrow> (exc + pyval) \<times> read_log" where
  "load_org_series_acl fs profile =
     (case extract_org_uuid profile of
        None \<Rightarrow> (Inr (PList []), [])
      | Some org_uuid \<Rightarrow>
          if org_uuid = [] then (Inr (PList []), [])
          else
            (case get_document fs ''orgs'' org_uuid of
               Inl e \<Rightarrow> (Inl e, [(''orgs'', org_uuid)])
             | Inr None \<Rightarrow> (Inr (PList []), [(''orgs'', org_uuid)])
             | Inr (Some org) \<Rightarrow>
                 if org = [] then (Inr (PList []), [(''orgs'', org_uuid)])
                 else (Inr (dict_get org ''series_acl'' (PList [])), [(''orgs'', org_uuid)])))"

text \<open>\<open>list(set(org_series_acl + profile_series_acl))\<close>.\<close>

definition merge_acl :: "pyval \<Rightarrow> pyval \<Rightarrow> exc + atom list" where
  "merge_acl org_series_acl profile_series_acl =
     (case py_add org_series_acl profile_series_acl of
        Inl e \<Rightarrow> Inl e
      | Inr both \<Rightarrow> list_of_set both)"

text \<open>
  \<open>get_profile_with_acl\<close>, with the point reads it makes. \<open>if not profile\<close> holds for
  \<open>None\<close> and for a dict without fields. The closing \<open>if not series_acl: series_acl = []\<close>
  puts an empty list in the place of an empty list and has no branch here.
\<close>

definition get_profile_with_acl ::
  "FirestoreService \<Rightarrow> string \<Rightarrow> (exc + document \<times> atom list) \<times> read_log" where
  "get_profile_with_acl fs profile_uuid =
     (case get_document fs ''profiles'' profile_uuid of
        Inl e \<Rightarrow> (Inl e, [(''profiles'', profile_uuid)])
      | Inr None \<Rightarrow> (Inl (ProfileNotFoundException profile_uuid), [(''profiles'', profile_uuid)])
      | Inr (Some profile) \<Rightarrow>
          if profile = []
          then (Inl (ProfileNotFoundException profile_uuid), [(''profiles'', profile_uuid)])
          else
            (case load_org_series_acl fs profile of
               (Inl e, reads) \<Rightarrow> (Inl e, (''profiles'', profile_uuid) # reads)
             | (Inr org_series_acl, reads) \<Rightarrow>
                 (case merge_acl org_series_acl (dict_get profile ''series_acl'' (PList [])) of
                    Inl e \<Rightarrow> (Inl e, (''profiles'', profile_uuid) # reads)
                  | Inr series_acl \<Rightarrow>
                      (Inr (profile, series_acl), (''profiles'', profile_uuid) # reads))))"

text \<open>\<open>validate_serie_access\<close>: \<open>serie_uuid in series_acl\<close> on the resolved access list.\<close>

definition validate_serie_access ::
  "FirestoreService \<Rightarrow> string \<Rightarrow> string \<Rightarrow> (exc + bool) \<times> read_log" where
  "validate_serie_access fs profile_uuid serie_uuid =
     (case get_profile_with_acl fs profile_uuid of
        (Inl e, reads) \<Rightarrow> (Inl e, reads)
      | (Inr (profile, series_acl), reads) \<Rightarrow> (Inr (py_in serie_uuid series_acl), reads))"

text \<open>
  An element that the loop of \<open>_first_non_empty_to_str\<close> returns when it reaches it:
  it is truthy (so not \<open>None\<close>, and not \<open>0\<close>, \<open>False\<close> or the empty string) and its
  string, trimmed, is not empty.
\<close>

definition usable :: "atom \<Rightarrow> bool" where
  "usable a = (truthy_atom a \<and> strip (str_atom a) \<noteq> [])"

section \<open>The normalization rule in the words of the specification\<close>

text \<open>
  The specification's rule for a collection: take the first element that, after
  trimming or stringifying, is not empty. An absent element normalizes to the empty
  string.
\<close>

definition normalized :: "atom \<Rightarrow> string" where
  "normalized a = (case a of ANone \<Rightarrow> [] | AStr s \<Rightarrow> strip s | _ \<Rightarrow> strip (str_atom a))"

definition spec_first_non_empty :: "atom list \<Rightarrow> string option" where
  "spec_first_non_empty items = map_option normalized (find (\<lambda>a. normalized a \<noteq> []) items)"

section \<open>Example services\<close>

text \<open>
  A service whose store raises the same error on every call, a service that was never
  initialised, and a service whose second chunk (index 1) fails with a transient error
  on every attempt before the \<open>k\<close>-th; twelve identifiers, which make two chunks.
\<close>

definition service_raising :: "store_error \<Rightarrow> FirestoreService" where
  "service_raising err =
     \<lparr>project_id = ''plia-ai'',
      fs_client = Some \<lparr>document_get = (\<lambda>collection doc_id. Inl err),
                          query_stream = (\<lambda>collection field chunk order_by i n. Inl err)\<rparr>,
      is_initialized = True\<rparr>"

definition uninitialized_service :: FirestoreService where
  "uninitialized_service = \<lparr>project_id = ''plia-ai'', fs_client = None, is_initialized = False\<rparr>"

definition serie_doc :: "string \<Rightarrow> document" where
  "serie_doc v = [(''serie_uuid'', Atom (AStr v))]"

definition flaky :: "nat \<Rightarrow> FirestoreService" where
  "flaky k =
     \<lparr>project_id = ''plia-ai'',
      fs_client = Some \<lparr>document_get = (\<lambda>collection doc_id. Inr None),
                          query_stream = (\<lambda>collection field chunk order_by i n.
                             if i = 1 \<and> n < k then Inl ResourceExhausted
                             else Inr (map serie_doc chunk))\<rparr>,
      is_initialized = True\<rparr>"

definition twelve_ids :: "string list" where
  "twelve_ids = map (\<lambda>n. CHR ''s'' # str_nat n) [1..<13]"

text \<open>
  A service over a fixed table of documents, and a small store: an empty profile
  document \<open>p0\<close>; \<open>p1\<close> with an \<open>org_uuid\<close> and an \<open>orgs\<close> field; \<open>p2\<close> with an empty
  \<open>orgs\<close> list; \<open>p3\<close> whose first usable organization has no document.
\<close>

definition service_of_docs :: "((string \<times> string) \<times> document) list \<Rightarrow> FirestoreService" where
  "service_of_docs docs =
     \<lparr>project_id = ''plia-ai'',
      fs_client = Some \<lparr>document_get = (\<lambda>collection doc_id. Inr (map_of docs (collection, doc_id))),
                          query_stream = (\<lambda>collection field chunk order_by i n. Inr [])\<rparr>,
      is_initialized = True\<rparr>"

definition example_store :: FirestoreService where
  "example_store = service_of_docs
     [((''profiles'', ''p0''), []),
      ((''profiles'', ''p1''), [(''org_uuid'', Atom (AStr '' orgA '')),
                                (''orgs'', PList [AStr ''orgB'']),
                                (''series_acl'', PList [AStr ''s1'', AStr ''s2'', AStr ''s1''])]),
      ((''profiles'', ''p2''), [(''orgs'', PList []), (''series_acl'', PList [AStr ''s5''])]),
      ((''profiles'', ''p3''), [(''orgs'', PList [ANone, AStr ''  '', AStr ''ghost'', AStr ''orgA'']),
                                (''series_acl'', PList [AStr ''s1''])]),
      ((''orgs'', ''orgA''), [(''series_acl'', PList [AStr ''s2'', AStr ''s3''])]),
      ((''orgs'', ''orgB''), [(''series_acl'', PList [AStr ''s7''])])]"

section \<open>Chunking\<close>

lemma ceil10_step:
  assumes "(i::nat) < n"
  shows "(n - i + 9) div 10 = Suc ((n - (i + 10) + 9) div 10)"
proof (cases "i + 10 \<le> n")
  case True
  then have "n - i + 9 = (n - (i + 10) + 9) + 10" by simp
  then show ?thesis by (simp only: div_add_self2)
next
  case False
  with assms have "10 \<le> n - i + 9" "n - i + 9 < 20" "n - (i + 10) = 0" by simp_all
  then have "(n - i + 9) div 10 = 1" "(n - (i + 10) + 9) div 10 = 0" by simp_all
  then show ?thesis by simp
qed

lemma map_upt_shift:
  "x # map (\<lambda>k. x + 10 + 10 * k) [0..<m] = map (\<lambda>k. x + 10 * k) [0..<Suc m]"
proof -
  have "[0..<Suc m] = 0 # map Suc [0..<m]"
    by (simp add: upt_conv_Cons map_Suc_upt del: upt_Suc)
  then show ?thesis by (simp add: comp_def del: upt_Suc)
qed

lemma range10_eq: "range10 i n = map (\<lambda>k. i + 10 * k) [0..<(n - i + 9) div 10]"
proof (induction i n rule: range10.induct)
  case (1 i n)
  show ?case
  proof (cases "i < n")
    case True
    have "range10 i n = i # range10 (i + 10) n"
      using True by (simp add: range10.simps [of i n])
    also have "\<dots> = i # map (\<lambda>k. i + 10 + 10 * k) [0..<(n - (i + 10) + 9) div 10]"
      by (simp only: "1.IH" [OF True])
    also have "\<dots> = map (\<lambda>k. i + 10 * k) [0..<Suc ((n - (i + 10) + 9) div 10)]"
      by (rule map_upt_shift)
    finally show ?thesis by (simp only: ceil10_step [OF True])
  next
    case False
    then have "(n - i + 9) div 10 = 0" by simp
    with False show ?thesis by (simp add: range10.simps [of i n])
  qed
qed

lemma chunks_of_eq:
  "chunks_of values = map (\<lambda>k. take 10 (drop (10 * k) values)) [0..<(length values + 9) div 10]"
  by (simp add: chunks_of_def range10_eq slice_def)

lemma concat_chunks_take:
  "concat (map (\<lambda>k. take 10 (drop (10 * k) xs)) [0..<m]) = take (10 * m) xs"
proof (induction m)
  case 0
  show ?case by simp
next
  case (Suc m)
  have "take (10 * Suc m) xs = take (10 * m + 10) xs"
    by (simp add: add.commute)
  also have "\<dots> = take (10 * m) xs @ take 10 (drop (10 * m) xs)"
    by (rule take_add)
  finally show ?case using Suc by simp
qed

lemma concat_chunks_of: "concat (chunks_of values) = values"
  by (simp add: chunks_of_eq concat_chunks_take)

lemma length_chunks_of: "length (chunks_of values) = (length values + 9) div 10"
  by (simp add: chunks_of_eq)

lemma nth_chunks_of:
  "k < length (chunks_of values) \<Longrightarrow> chunks_of values ! k = take 10 (drop (10 * k) values)"
  by (simp add: chunks_of_eq)

lemma chunk_sizes:
  "c \<in> set (chunks_of values) \<Longrightarrow> 1 \<le> length c \<and> length c \<le> 10"
  by (auto simp: chunks_of_eq)

section \<open>The retry loop\<close>

lemma retryer_reraise:
  assumes "reraise" "retryer f m reraise n = (out, k)"
  shows "n \<le> k \<and> out = f k \<and> (k = n \<or> int k \<le> m)
         \<and> (\<forall>j. n \<le> j \<and> j < k \<longrightarrow> (\<exists>e. f j = Inl e \<and> retry_if_exception_type e))
         \<and> (\<forall>e. out = Inl e \<and> retry_if_exception_type e \<longrightarrow> m \<le> int k)"
  using assms
proof (induction f m reraise n rule: retryer.induct)
  case (1 f m reraise n)
  show ?case
  proof (cases "f n")
    case (Inr r)
    with "1.prems" have "out = Inr r" "k = n"
      by (simp_all add: retryer.simps [of f m True n])
    with Inr show ?thesis by auto
  next
    case (Inl e)
    show ?thesis
    proof (cases "retry_if_exception_type e \<and> \<not> m \<le> int n")
      case False
      with Inl "1.prems" show ?thesis
        by (auto simp: retryer.simps [of f m True n] split: if_splits)
    next
      case True
      with Inl "1.prems" have r: "retryer f m reraise (Suc n) = (out, k)"
        by (simp add: retryer.simps [of f m True n])
      from True have t: "\<not> \<not> retry_if_exception_type e" "\<not> m \<le> int n" by simp_all
      note ih = "1.IH" [OF Inl t "1.prems"(1) r]
      have "\<And>j. n \<le> j \<Longrightarrow> j < k \<Longrightarrow> \<exists>e. f j = Inl e \<and> retry_if_exception_type e"
      proof -
        fix j assume "n \<le> j" "j < k"
        show "\<exists>e. f j = Inl e \<and> retry_if_exception_type e"
        proof (cases "j = n")
          case True
          with Inl t show ?thesis by simp
        next
          case False
          with \<open>n \<le> j\<close> \<open>j < k\<close> ih show ?thesis by simp
        qed
      qed
      moreover from ih t have "n \<le> k" "out = f k" "k = n \<or> int k \<le> m" by auto
      moreover from ih have "\<forall>e. out = Inl e \<and> retry_if_exception_type e \<longrightarrow> m \<le> int k"
        by simp
      ultimately show ?thesis by blast
    qed
  qed
qed

lemma fetch_not_RetryError: "fetch fs collection field order_by i chunk n \<noteq> Inl (RetryError e)"
  by (simp add: fetch_def client_def split: option.split sum.split)

lemma fetch_chunk_with_retry_eq:
  "fetch_chunk_with_retry fs collection field order_by max_retries chunk i =
     retryer (fetch fs collection field order_by i chunk) max_retries True 1"
proof (cases "retryer (fetch fs collection field order_by i chunk) max_retries True 1")
  case (Pair out k)
  from retryer_reraise [OF _ Pair] have "out = fetch fs collection field order_by i chunk k"
    by simp
  then have "\<And>e. out \<noteq> Inl (RetryError e)" by (simp add: fetch_not_RetryError)
  with Pair show ?thesis
    by (auto simp: fetch_chunk_with_retry_def split: sum.split exc.split)
qed

section \<open>Gathering\<close>

lemma first_raised_Some:
  "first_raised order outs = Some e \<Longrightarrow> \<exists>j < length outs. outs ! j = Inl e"
  by (induction order) (auto split: if_splits sum.splits)

lemma first_raised_None:
  "first_raised order outs = None \<Longrightarrow> i \<in> set order \<Longrightarrow> i < length outs
     \<Longrightarrow> \<exists>r. outs ! i = Inr r"
  by (induction order) (auto split: if_splits sum.splits)

lemma first_raised_only:
  "first_raised order outs = Some e' \<Longrightarrow> outs ! i = Inl e
     \<Longrightarrow> \<forall>j < length outs. j \<noteq> i \<longrightarrow> (\<exists>r. outs ! j = Inr r) \<Longrightarrow> e' = e"
  by (induction order) (auto split: if_splits sum.splits)

lemma gather_Inl:
  "gather order outs = Inl e \<Longrightarrow> \<exists>j < length outs. outs ! j = Inl e"
  by (auto simp: gather_def split: option.splits dest: first_raised_Some)

lemma gather_fails:
  assumes "i < length outs" "outs ! i = Inl e"
  shows "\<exists>e'. gather order outs = Inl e'"
proof (cases "first_raised (order @ [0..<length outs]) outs")
  case None
  from first_raised_None [OF None, of i] assms show ?thesis by simp
next
  case (Some e')
  then show ?thesis by (simp add: gather_def)
qed

lemma gather_only:
  assumes "gather order outs = Inl e'" "outs ! i = Inl e"
    and "\<forall>j < length outs. j \<noteq> i \<longrightarrow> (\<exists>r. outs ! j = Inr r)"
  shows "e' = e"
  using assms by (auto simp: gather_def split: option.splits dest: first_raised_only)

lemma returned_all_Inr:
  "\<forall>x \<in> set outs. \<exists>r. x = Inr r \<Longrightarrow> map Inr (returned outs) = outs"
  by (induction outs rule: returned.induct) auto

lemma gather_all_Inr:
  assumes "\<forall>x \<in> set outs. \<exists>r. x = Inr r"
  shows "gather order outs = Inr (returned outs)"
proof (cases "first_raised (order @ [0..<length outs]) outs")
  case None
  then show ?thesis by (simp add: gather_def)
next
  case (Some e)
  from first_raised_Some [OF Some] obtain j where "j < length outs" "outs ! j = Inl e"
    by blast
  then have "Inl e \<in> set outs" by (metis nth_mem)
  with assms show ?thesis by auto
qed

lemma nth_chunk_tasks:
  "i < length chunks \<Longrightarrow>
     chunk_tasks fs collection field order_by max_retries chunks ! i =
       fetch_chunk_with_retry fs collection field order_by max_retries (chunks ! i) i"
  by (simp add: chunk_tasks_def nth_enumerate_eq)

lemma length_chunk_tasks:
  "length (chunk_tasks fs collection field order_by max_retries chunks) = length chunks"
  by (simp add: chunk_tasks_def)

lemma query_documents_in_result:
  "values \<noteq> [] \<Longrightarrow>
     fst (query_documents_in fs order collection field values order_by max_retries) =
       map_sum id concat
         (gather order (map fst (chunk_tasks fs collection field order_by max_retries (chunks_of values))))"
  by (simp add: query_documents_in_def Let_def split: sum.split)

section \<open>Claims about the batched query\<close>

text \<open>
  C9. Called with an empty list of values, \<open>query_documents_in\<close> returns the empty
  sequence at once: the result does not depend on the store, and no attempt (no store
  call) is made.
\<close>

theorem C9_empty_values_no_store_call:
  "query_documents_in fs finish_order collection field [] order_by max_retries = (Inr [], 0)"
  by (simp add: query_documents_in_def)

text \<open>
  C7. The key list is cut into consecutive chunks of at most 10 keys (none empty):
  there are \<open>ceil(len(values) / 10)\<close> of them, chunk \<open>k\<close> holds the keys from position
  \<open>10 k\<close> on, and their concatenation is the key list. One task is started per chunk.
  When every chunk task returns, the result is the concatenation of the chunks' results
  in chunk order, so its elements are those of the chunks' results together.
\<close>

theorem C7_chunks_and_concatenation:
  assumes "tasks = chunk_tasks fs collection field order_by max_retries (chunks_of values)"
  shows "length (chunks_of values) = (length values + 9) div 10
       \<and> length tasks = (length values + 9) div 10
       \<and> concat (chunks_of values) = values
       \<and> (\<forall>c \<in> set (chunks_of values). 1 \<le> length c \<and> length c \<le> 10)
       \<and> (\<forall>k < length (chunks_of values). chunks_of values ! k = take 10 (drop (10 * k) values))
       \<and> (values \<noteq> [] \<and> (\<forall>t \<in> set tasks. \<exists>docs. fst t = Inr docs) \<longrightarrow>
            map Inr (returned (map fst tasks)) = map fst tasks
          \<and> fst (query_documents_in fs finish_order collection field values order_by max_retries)
              = Inr (concat (returned (map fst tasks)))
          \<and> (\<forall>docs. fst (query_documents_in fs finish_order collection field values order_by
                            max_retries) = Inr docs
                 \<longrightarrow> set docs = (\<Union>r \<in> set (returned (map fst tasks)). set r)))"
proof -
  have a: "length tasks = (length values + 9) div 10"
    by (simp add: assms length_chunk_tasks length_chunks_of)
  have b: "\<forall>c \<in> set (chunks_of values). 1 \<le> length c \<and> length c \<le> 10"
    using chunk_sizes by blast
  have c: "\<forall>k < length (chunks_of values). chunks_of values ! k = take 10 (drop (10 * k) values)"
    using nth_chunks_of by blast
  have d: "map Inr (returned (map fst tasks)) = map fst tasks
          \<and> fst (query_documents_in fs finish_order collection field values order_by max_retries)
              = Inr (concat (returned (map fst tasks)))
          \<and> (\<forall>docs. fst (query_documents_in fs finish_order collection field values order_by
                            max_retries) = Inr docs
                 \<longrightarrow> set docs = (\<Union>r \<in> set (returned (map fst tasks)). set r))"
    if ne: "values \<noteq> []" and ok: "\<forall>t \<in> set tasks. \<exists>docs. fst t = Inr docs"
  proof -
    from ok have all: "\<forall>x \<in> set (map fst tasks). \<exists>r. x = Inr r" by auto
    have r: "fst (query_documents_in fs finish_order collection field values order_by max_retries)
              = Inr (concat (returned (map fst tasks)))"
      by (simp add: query_documents_in_result [OF ne] gather_all_Inr [OF all] assms [symmetric])
    from returned_all_Inr [OF all] r show ?thesis by simp
  qed
  from a b c d length_chunks_of [of "values"] concat_chunks_of [of "values"] show ?thesis
    by blast
qed

theorem C7_chunks_and_concatenation_witness:
  "twelve_ids \<noteq> []
   \<and> chunks_of twelve_ids = [take 10 twelve_ids, drop 10 twelve_ids]
   \<and> chunk_tasks (flaky 3) ''series'' ''serie_uuid'' None 3 (chunks_of twelve_ids)
       = [(Inr (map serie_doc (take 10 twelve_ids)), 1),
          (Inr (map serie_doc (drop 10 twelve_ids)), 3)]
   \<and> query_documents_in (flaky 3) [1, 0] ''series'' ''serie_uuid'' twelve_ids None 3
       = (Inr (map serie_doc twelve_ids), 4)"
proof -
  let ?tasks = "chunk_tasks (flaky 3) ''series'' ''serie_uuid'' None 3 (chunks_of twelve_ids)"
  have t: "?tasks = [(Inr (map serie_doc (take 10 twelve_ids)), 1),
                     (Inr (map serie_doc (drop 10 twelve_ids)), 3)]"
    by code_simp
  have ne: "twelve_ids \<noteq> []" by code_simp
  have c: "chunks_of twelve_ids = [take 10 twelve_ids, drop 10 twelve_ids]" by code_simp
  have q: "query_documents_in (flaky 3) [1, 0] ''series'' ''serie_uuid'' twelve_ids None 3
       = (Inr (map serie_doc twelve_ids), 4)" by code_simp
  have ok: "\<forall>t \<in> set ?tasks. \<exists>docs. fst t = Inr docs" by (simp add: t)
  from C7_chunks_and_concatenation [where tasks = "?tasks" and finish_order = "[1, 0]", OF refl]
    ok ne
  have "fst (query_documents_in (flaky 3) [1, 0] ''series'' ''serie_uuid'' twelve_ids None 3)
          = Inr (concat (returned (map fst ?tasks)))"
    by blast
  with ne c t q show ?thesis by simp
qed

text \<open>
  C8. One chunk's fetch makes at least one attempt, and a further attempt only after an
  attempt that failed with an exception the retry predicate accepts and only while the
  number of attempts made is below \<open>max_retries\<close>. Its outcome is the outcome of the last
  attempt itself: when the attempts are exhausted the exception raised is the one of the
  last attempt, never a \<open>RetryError\<close> around it; and a failure with a retryable exception
  means that \<open>max_retries\<close> attempts (one, if \<open>max_retries\<close> is below one) were made.
\<close>

theorem C8_retry_budget_and_last_exception:
  assumes "fetch_chunk_with_retry fs collection field order_by max_retries chunk i = (out, k)"
  shows "1 \<le> k \<and> (k = 1 \<or> int k \<le> max_retries)
       \<and> (\<forall>j. 1 \<le> j \<and> j < k \<longrightarrow>
             (\<exists>e. fetch fs collection field order_by i chunk j = Inl e \<and> retry_if_exception_type e))
       \<and> out = fetch fs collection field order_by i chunk k
       \<and> (\<forall>e. out \<noteq> Inl (RetryError e))
       \<and> (\<forall>e. out = Inl e \<and> retry_if_exception_type e \<longrightarrow> max_retries \<le> int k)"
proof -
  from assms have r: "retryer (fetch fs collection field order_by i chunk) max_retries True 1 = (out, k)"
    by (simp add: fetch_chunk_with_retry_eq)
  note p = retryer_reraise [OF _ r]
  from p have "out = fetch fs collection field order_by i chunk k" by simp
  then have "\<forall>e. out \<noteq> Inl (RetryError e)" by (simp add: fetch_not_RetryError)
  with p show ?thesis by simp
qed

theorem C8_retry_budget_and_last_exception_witness:
  "fetch_chunk_with_retry (service_raising DeadlineExceeded) ''series'' ''serie_uuid'' None 3
      [''s1'', ''s2''] 0 = (Inl (StoreError DeadlineExceeded), 3)
   \<and> fetch (service_raising DeadlineExceeded) ''series'' ''serie_uuid'' None 0 [''s1'', ''s2''] 3
       = Inl (StoreError DeadlineExceeded)
   \<and> retry_if_exception_type (StoreError DeadlineExceeded)
   \<and> (1::nat) \<le> 3 \<and> int 3 \<le> 3"
proof -
  have h: "fetch_chunk_with_retry (service_raising DeadlineExceeded) ''series'' ''serie_uuid'' None 3
      [''s1'', ''s2''] 0 = (Inl (StoreError DeadlineExceeded), 3)"
    by code_simp
  have "retry_if_exception_type (StoreError DeadlineExceeded)"
    by (simp add: retry_if_exception_type_def)
  with h C8_retry_budget_and_last_exception [OF h] show ?thesis by simp
qed

text \<open>
  C2, as stated, fails: a permission denial is a \<open>GoogleAPIError\<close>, which the retry
  predicate accepts, so with \<open>max_retries = 3\<close> the chunk is attempted three times.
\<close>

theorem C2_counterexample:
  "fetch_chunk_with_retry (service_raising PermissionDenied) ''series'' ''serie_uuid''
      (Some ''order'') 3 [''s1''] 0 = (Inl (StoreError PermissionDenied), 3)"
  by code_simp

text \<open>
  C2, amended. A chunk whose first attempt fails with an exception that is not a
  \<open>GoogleAPIError\<close> (the \<open>RuntimeError\<close> of a client that was not initialised, or an
  exception of another library) is not retried: exactly one attempt is made, and the
  whole batch fails. Every \<open>GoogleAPIError\<close> raised by the store is accepted by the retry
  predicate, the malformed request and the permission denial included.
\<close>

theorem C2_only_non_api_errors_are_not_retried:
  assumes "fetch fs collection field order_by i chunk 1 = Inl e"
    and "\<not> retry_if_exception_type e"
  shows "fetch_chunk_with_retry fs collection field order_by max_retries chunk i = (Inl e, 1)
       \<and> (values \<noteq> [] \<and> i < length (chunks_of values) \<and> chunks_of values ! i = chunk \<longrightarrow>
            (\<exists>e'. fst (query_documents_in fs finish_order collection field values order_by
                          max_retries) = Inl e'))
       \<and> (\<forall>err. retry_if_exception_type (StoreError err) \<longleftrightarrow> err \<noteq> NonGoogleError)"
proof -
  have one: "fetch_chunk_with_retry fs collection field order_by max_retries chunk i = (Inl e, 1)"
    unfolding fetch_chunk_with_retry_eq
    by (subst retryer.simps) (use assms in simp)
  have batch: "\<exists>e'. fst (query_documents_in fs finish_order collection field values order_by
                          max_retries) = Inl e'"
    if ne: "values \<noteq> []" and i: "i < length (chunks_of values)" and c: "chunks_of values ! i = chunk"
  proof -
    let ?outs = "map fst (chunk_tasks fs collection field order_by max_retries (chunks_of values))"
    from i c one have "i < length ?outs" "?outs ! i = Inl e"
      by (simp_all add: length_chunk_tasks nth_chunk_tasks)
    from gather_fails [OF this] obtain e' where "gather finish_order ?outs = Inl e'" by blast
    then show ?thesis by (simp add: query_documents_in_result [OF ne])
  qed
  have "\<forall>err. retry_if_exception_type (StoreError err) \<longleftrightarrow> err \<noteq> NonGoogleError"
    by (auto simp: retry_if_exception_type_def)
  with one batch show ?thesis by blast
qed

theorem C2_only_non_api_errors_are_not_retried_witness:
  "fetch uninitialized_service ''series'' ''serie_uuid'' None 0 [''s1''] 1 = Inl RuntimeError
   \<and> \<not> retry_if_exception_type RuntimeError
   \<and> fetch_chunk_with_retry uninitialized_service ''series'' ''serie_uuid'' None 3 [''s1''] 0
       = (Inl RuntimeError, 1)
   \<and> [''s1''] \<noteq> [] \<and> 0 < length (chunks_of [''s1'']) \<and> chunks_of [''s1''] ! 0 = [''s1'']
   \<and> (\<exists>e'. fst (query_documents_in uninitialized_service [] ''series'' ''serie_uuid'' [''s1'']
                 None 3) = Inl e')"
proof -
  have f: "fetch uninitialized_service ''series'' ''serie_uuid'' None 0 [''s1''] 1 = Inl RuntimeError"
    by (simp add: fetch_def client_def uninitialized_service_def)
  have n: "\<not> retry_if_exception_type RuntimeError"
    by (simp add: retry_if_exception_type_def)
  have c: "[''s1''] \<noteq> [] \<and> 0 < length (chunks_of [''s1'']) \<and> chunks_of [''s1''] ! 0 = [''s1'']"
    by (simp add: chunks_of_eq)
  from C2_only_non_api_errors_are_not_retried
         [OF f n, of 3 "[''s1'']" "[]"] f n c
  show ?thesis by simp
qed

text \<open>
  C3. If the task of any chunk ends with an exception (one the retry predicate rejects,
  or the last one of an exhausted retry budget), the whole call raises the terminal
  exception of a failed chunk, that chunk's own when it is the only one that failed,
  and returns no documents at all, whatever the other chunks returned.
\<close>

theorem C3_any_failed_chunk_fails_the_batch:
  assumes "values \<noteq> []"
    and "tasks = chunk_tasks fs collection field order_by max_retries (chunks_of values)"
    and "i < length tasks" and "fst (tasks ! i) = Inl e"
  shows "(\<exists>j e'. j < length tasks \<and> fst (tasks ! j) = Inl e'
            \<and> fst (query_documents_in fs finish_order collection field values order_by max_retries)
                = Inl e')
       \<and> ((\<forall>j < length tasks. j \<noteq> i \<longrightarrow> (\<exists>docs. fst (tasks ! j) = Inr docs)) \<longrightarrow>
            fst (query_documents_in fs finish_order collection field values order_by max_retries)
               = Inl e)
       \<and> (\<forall>docs. fst (query_documents_in fs finish_order collection field values order_by
                        max_retries) \<noteq> Inr docs)"
proof -
  let ?outs = "map fst tasks"
  let ?q = "fst (query_documents_in fs finish_order collection field values order_by max_retries)"
  have q: "?q = map_sum id concat (gather finish_order ?outs)"
    by (simp add: query_documents_in_result [OF assms(1)] assms(2))
  from assms(3,4) have i: "i < length ?outs" "?outs ! i = Inl e" by simp_all
  from gather_fails [OF i] obtain e' where g: "gather finish_order ?outs = Inl e'" by blast
  from gather_Inl [OF g] obtain j where j: "j < length tasks" "fst (tasks ! j) = Inl e'" by auto
  from g q have r: "?q = Inl e'" by simp
  have "e' = e" if "\<forall>j < length tasks. j \<noteq> i \<longrightarrow> (\<exists>docs. fst (tasks ! j) = Inr docs)"
  proof -
    from that have "\<forall>j < length ?outs. j \<noteq> i \<longrightarrow> (\<exists>r. ?outs ! j = Inr r)" by simp
    from gather_only [OF g i(2) this] show ?thesis .
  qed
  with r j show ?thesis by auto
qed

theorem C3_any_failed_chunk_fails_the_batch_witness:
  "twelve_ids \<noteq> []
   \<and> chunk_tasks (flaky 4) ''series'' ''serie_uuid'' None 3 (chunks_of twelve_ids)
       = [(Inr (map serie_doc (take 10 twelve_ids)), 1), (Inl (StoreError ResourceExhausted), 3)]
   \<and> fst (query_documents_in (flaky 4) [0, 1] ''series'' ''serie_uuid'' twelve_ids None 3)
       = Inl (StoreError ResourceExhausted)"
proof -
  let ?tasks = "chunk_tasks (flaky 4) ''series'' ''serie_uuid'' None 3 (chunks_of twelve_ids)"
  have t: "?tasks = [(Inr (map serie_doc (take 10 twelve_ids)), 1),
                     (Inl (StoreError ResourceExhausted), 3)]"
    by code_simp
  have ne: "twelve_ids \<noteq> []" by code_simp
  have i: "1 < length ?tasks" by (simp add: t)
  have e: "fst (?tasks ! 1) = Inl (StoreError ResourceExhausted)" by (simp add: t)
  have only: "\<forall>j < length ?tasks. j \<noteq> 1 \<longrightarrow> (\<exists>docs. fst (?tasks ! j) = Inr docs)"
    by (simp add: t less_Suc_eq)
  from C3_any_failed_chunk_fails_the_batch [OF ne refl i e, of "[0, 1]"] only ne t
  show ?thesis by blast
qed

section \<open>The normalization of the organization reference\<close>

lemma strip_Nil: "strip [] = []"
  by (simp add: strip_def)

lemma scan_items_find:
  "scan_items items = map_option (\<lambda>a. strip (str_atom a)) (find usable items)"
  by (induction items rule: scan_items.induct) (auto simp: usable_def strip_Nil Let_def)

lemma scan_items_not_empty: "scan_items items \<noteq> Some []"
  by (induction items rule: scan_items.induct) (auto simp: Let_def)

lemma first_non_empty_to_str_not_empty: "first_non_empty_to_str v \<noteq> Some []"
  by (cases v rule: first_non_empty_to_str.cases) (auto simp: Let_def scan_items_not_empty)

lemma not_str_first: "not_str (first_non_empty_to_str v) \<longleftrightarrow> first_non_empty_to_str v = None"
  using first_non_empty_to_str_not_empty [of v]
  by (cases "first_non_empty_to_str v") (auto simp: not_str_def)

lemma extract_org_uuid_eq:
  "extract_org_uuid profile =
     (case first_non_empty_to_str (dict_get profile ''org_uuid'' (Atom ANone)) of
        Some s \<Rightarrow> Some s
      | None \<Rightarrow> first_non_empty_to_str (dict_get profile ''orgs'' (Atom ANone)))"
  by (simp add: extract_org_uuid_def Let_def not_str_first split: option.split)

lemma extract_org_uuid_not_empty: "extract_org_uuid profile \<noteq> Some []"
  using first_non_empty_to_str_not_empty
  by (auto simp: extract_org_uuid_eq split: option.split)

lemma py_eq_AStr: "py_eq (AStr s) b \<longleftrightarrow> b = AStr s"
  by (cases b) auto

lemma list_ex_py_eq_AStr: "list_ex (py_eq (AStr s)) xs \<longleftrightarrow> AStr s \<in> set xs"
  by (auto simp: list_ex_iff py_eq_AStr)

lemma py_in_set: "py_in x xs \<longleftrightarrow> AStr x \<in> set xs"
  by (simp add: py_in_def list_ex_py_eq_AStr)

lemma dedupe_strings:
  "distinct seen \<Longrightarrow>
     set (dedupe seen (map AStr xs)) = set seen \<union> AStr ` set xs
     \<and> distinct (dedupe seen (map AStr xs))"
  by (induction xs arbitrary: seen) (auto simp: list_ex_py_eq_AStr)



lemma find_skip:
  "\<forall>a \<in> set skipped. \<not> P a \<Longrightarrow> P x \<Longrightarrow> find P (skipped @ x # later) = Some x"
  by (induction skipped) auto

lemma usable_normalized:
  "a \<noteq> ABool False \<Longrightarrow> a \<noteq> AInt 0 \<Longrightarrow>
     usable a = (normalized a \<noteq> []) \<and> (usable a \<longrightarrow> strip (str_atom a) = normalized a)"
  by (cases a) (auto simp: usable_def normalized_def strip_Nil)

lemma scan_items_spec:
  "ABool False \<notin> set items \<Longrightarrow> AInt 0 \<notin> set items \<Longrightarrow>
     scan_items items = spec_first_non_empty items"
proof (induction items)
  case Nil
  show ?case by (simp add: spec_first_non_empty_def)
next
  case (Cons a items)
  then have a: "a \<noteq> ABool False" "a \<noteq> AInt 0" by auto
  from Cons have ih: "scan_items items = spec_first_non_empty items" by simp
  from usable_normalized [OF a] ih show ?case
    by (auto simp: scan_items_find spec_first_non_empty_def)
qed

lemma collection_scan:
  "v = PList items \<or> v = PTuple items \<or> v = PSet items \<Longrightarrow>
     first_non_empty_to_str v = scan_items items"
  by auto

section \<open>Resolving a profile\<close>

lemma load_org_reads:
  "snd (load_org_series_acl fs profile) =
     (case extract_org_uuid profile of None \<Rightarrow> [] | Some org_uuid \<Rightarrow> [(''orgs'', org_uuid)])"
  using extract_org_uuid_not_empty [of profile]
  by (auto simp: load_org_series_acl_def split: option.split sum.split)


lemma get_profile_reads:
  assumes "get_document fs ''profiles'' pid = Inr (Some profile)" "profile \<noteq> []"
  shows "snd (get_profile_with_acl fs pid) = (''profiles'', pid) # snd (load_org_series_acl fs profile)"
  using assms by (auto simp: get_profile_with_acl_def split: prod.split sum.split)

lemma get_profile_result:
  assumes "get_document fs ''profiles'' pid = Inr (Some profile)" "profile \<noteq> []"
  shows "fst (get_profile_with_acl fs pid) =
     (case fst (load_org_series_acl fs profile) of
        Inl e \<Rightarrow> Inl e
      | Inr org_series_acl \<Rightarrow>
          map_sum id (Pair profile)
            (merge_acl org_series_acl (dict_get profile ''series_acl'' (PList []))))"
  using assms by (auto simp: get_profile_with_acl_def split: prod.split sum.split)



lemma merge_acl_string_lists:
  "\<exists>acl. merge_acl (PList (map AStr org_grants)) (PList (map AStr direct_grants)) = Inr acl
         \<and> set acl = AStr ` (set org_grants \<union> set direct_grants) \<and> distinct acl"
proof -
  have "map AStr org_grants @ map AStr direct_grants = map AStr (org_grants @ direct_grants)"
    by simp
  then have "merge_acl (PList (map AStr org_grants)) (PList (map AStr direct_grants))
          = Inr (dedupe [] (map AStr (org_grants @ direct_grants)))"
    by (simp add: merge_acl_def)
  with dedupe_strings [of "[]" "org_grants @ direct_grants"] show ?thesis by auto
qed

section \<open>Claims about the ACL service\<close>

text \<open>
  C1. For a profile whose own grant list is the list of strings \<open>direct_grants\<close>
  (absent: empty) and whose organization's grant list is the list of strings
  \<open>org_grants\<close> (empty when no organization is named or its document is absent),
  \<open>get_profile_with_acl\<close> returns the profile and an access list without duplicates
  whose elements are exactly those of the two lists, whatever their order and
  repetitions.
\<close>

theorem C1_access_set_is_deduplicated_union:
  assumes "get_document fs ''profiles'' pid = Inr (Some profile)" and "profile \<noteq> []"
    and "dict_get profile ''series_acl'' (PList []) = PList (map AStr direct_grants)"
    and "(extract_org_uuid profile = Some org_uuid
            \<and> get_document fs ''orgs'' org_uuid = Inr (Some org)
            \<and> dict_get org ''series_acl'' (PList []) = PList (map AStr org_grants))
         \<or> ((extract_org_uuid profile = None
               \<or> (extract_org_uuid profile = Some org_uuid
                    \<and> get_document fs ''orgs'' org_uuid = Inr None))
             \<and> org_grants = [])"
  shows "\<exists>acl. fst (get_profile_with_acl fs pid) = Inr (profile, acl)
           \<and> set acl = AStr ` (set org_grants \<union> set direct_grants) \<and> distinct acl"
proof -
  have o: "fst (load_org_series_acl fs profile) = Inr (PList (map AStr org_grants))"
    using assms(4) extract_org_uuid_not_empty [of profile]
    by (auto simp: load_org_series_acl_def dict_get_def)
  from merge_acl_string_lists [of org_grants direct_grants]
  obtain acl where a: "merge_acl (PList (map AStr org_grants)) (PList (map AStr direct_grants)) = Inr acl"
    "set acl = AStr ` (set org_grants \<union> set direct_grants)" "distinct acl" by blast
  from get_profile_result [OF assms(1,2)] o assms(3) a(1)
  have "fst (get_profile_with_acl fs pid) = Inr (profile, acl)" by simp
  with a(2,3) show ?thesis by blast
qed

theorem C1_access_set_is_deduplicated_union_witness:
  "get_document example_store ''profiles'' ''p1''
     = Inr (Some [(''org_uuid'', Atom (AStr '' orgA '')), (''orgs'', PList [AStr ''orgB'']),
                  (''series_acl'', PList [AStr ''s1'', AStr ''s2'', AStr ''s1''])])
   \<and> get_document example_store ''orgs'' ''orgA''
     = Inr (Some [(''series_acl'', PList [AStr ''s2'', AStr ''s3''])])
   \<and> (\<exists>profile acl. fst (get_profile_with_acl example_store ''p1'') = Inr (profile, acl)
          \<and> set acl = {AStr ''s1'', AStr ''s2'', AStr ''s3''} \<and> distinct acl)"
proof -
  let ?p = "[(''org_uuid'', Atom (AStr '' orgA '')), (''orgs'', PList [AStr ''orgB'']),
             (''series_acl'', PList [AStr ''s1'', AStr ''s2'', AStr ''s1''])]"
  let ?o = "[(''series_acl'', PList [AStr ''s2'', AStr ''s3''])]"
  have p: "get_document example_store ''profiles'' ''p1'' = Inr (Some ?p)" by code_simp
  have ne: "?p \<noteq> []" by simp
  have d: "dict_get ?p ''series_acl'' (PList []) = PList (map AStr [''s1'', ''s2'', ''s1''])"
    by code_simp
  have x: "extract_org_uuid ?p = Some ''orgA''" by code_simp
  have g: "get_document example_store ''orgs'' ''orgA'' = Inr (Some ?o)" by code_simp
  have od: "dict_get ?o ''series_acl'' (PList []) = PList (map AStr [''s2'', ''s3''])"
    by code_simp
  from x g od
  have h: "(extract_org_uuid ?p = Some ''orgA''
            \<and> get_document example_store ''orgs'' ''orgA'' = Inr (Some ?o)
            \<and> dict_get ?o ''series_acl'' (PList []) = PList (map AStr [''s2'', ''s3'']))
         \<or> ((extract_org_uuid ?p = None
               \<or> (extract_org_uuid ?p = Some ''orgA''
                    \<and> get_document example_store ''orgs'' ''orgA'' = Inr None))
             \<and> [''s2'', ''s3''] = [])" by blast
  from C1_access_set_is_deduplicated_union [OF p ne d h]
  obtain acl where "fst (get_profile_with_acl example_store ''p1'') = Inr (?p, acl)"
    "set acl = AStr ` (set [''s2'', ''s3''] \<union> set [''s1'', ''s2'', ''s1''])" "distinct acl"
    by blast
  then have "fst (get_profile_with_acl example_store ''p1'') = Inr (?p, acl)
     \<and> set acl = {AStr ''s1'', AStr ''s2'', AStr ''s3''} \<and> distinct acl" by auto
  with p g show ?thesis by blast
qed

text \<open>
  C4, as stated, fails: in \<open>[0, "b"]\<close> the element \<open>0\<close> stringifies to the non-empty
  \<open>"0"\<close>, yet the loop skips it because it is falsy, and returns \<open>"b"\<close>.
\<close>

theorem C4_counterexample:
  "first_non_empty_to_str (PList [AInt 0, AStr ''b'']) = Some ''b''
   \<and> spec_first_non_empty [AInt 0, AStr ''b''] = Some ''0''"
  by code_simp

text \<open>
  C4, amended. \<open>None\<close> gives no organization; a string gives its trimmed form, or no
  organization when that is empty. A list, tuple or set gives the trimmed string of its
  first usable element in iteration order: the elements before it (absent, blank, or
  falsy such as \<open>0\<close> and \<open>False\<close>) are skipped and the elements after it are ignored;
  an empty collection, or one without a usable element, gives no organization. On a
  collection without \<open>0\<close> and \<open>False\<close> this is the specification's rule.
\<close>

theorem C4_first_usable_element:
  "first_non_empty_to_str (Atom ANone) = None
   \<and> first_non_empty_to_str (Atom (AStr s)) = (if strip s = [] then None else Some (strip s))
   \<and> (v = PList items \<or> v = PTuple items \<or> v = PSet items \<longrightarrow>
        first_non_empty_to_str v = map_option (\<lambda>a. strip (str_atom a)) (find usable items)
        \<and> (items = [] \<longrightarrow> first_non_empty_to_str v = None)
        \<and> (items = skipped @ x # later \<and> (\<forall>a \<in> set skipped. \<not> usable a) \<and> usable x \<longrightarrow>
              first_non_empty_to_str v = Some (strip (str_atom x)))
        \<and> (ABool False \<notin> set items \<and> AInt 0 \<notin> set items \<longrightarrow>
              first_non_empty_to_str v = spec_first_non_empty items))"
proof -
  have s: "first_non_empty_to_str (Atom (AStr s)) = (if strip s = [] then None else Some (strip s))"
    by (simp add: Let_def)
  have c: "first_non_empty_to_str v = map_option (\<lambda>a. strip (str_atom a)) (find usable items)
        \<and> (items = [] \<longrightarrow> first_non_empty_to_str v = None)
        \<and> (items = skipped @ x # later \<and> (\<forall>a \<in> set skipped. \<not> usable a) \<and> usable x \<longrightarrow>
              first_non_empty_to_str v = Some (strip (str_atom x)))
        \<and> (ABool False \<notin> set items \<and> AInt 0 \<notin> set items \<longrightarrow>
              first_non_empty_to_str v = spec_first_non_empty items)"
    if v: "v = PList items \<or> v = PTuple items \<or> v = PSet items"
  proof -
    note e = collection_scan [OF v]
    have 1: "first_non_empty_to_str v = map_option (\<lambda>a. strip (str_atom a)) (find usable items)"
      by (simp add: e scan_items_find)
    have 2: "items = [] \<longrightarrow> first_non_empty_to_str v = None" by (simp add: e)
    have 3: "items = skipped @ x # later \<and> (\<forall>a \<in> set skipped. \<not> usable a) \<and> usable x \<longrightarrow>
              first_non_empty_to_str v = Some (strip (str_atom x))"
      by (simp add: 1 find_skip)
    have 4: "ABool False \<notin> set items \<and> AInt 0 \<notin> set items \<longrightarrow>
              first_non_empty_to_str v = spec_first_non_empty items"
      by (simp add: e scan_items_spec)
    from 1 2 3 4 show ?thesis by blast
  qed
  have n: "first_non_empty_to_str (Atom ANone) = None" by simp
  from n s c show ?thesis by blast
qed

theorem C4_first_usable_element_witness:
  "\<not> usable ANone \<and> \<not> usable (AStr ''  '') \<and> \<not> usable (AInt 0) \<and> \<not> usable (ABool False)
   \<and> usable (AStr '' orgA '')
   \<and> first_non_empty_to_str (PList ([ANone, AStr ''  '', AInt 0, ABool False] @ AStr '' orgA '' # [AStr ''orgB'']))
       = Some ''orgA''
   \<and> ABool False \<notin> set [ANone, AStr '' '', AInt 7, AStr ''orgB'']
   \<and> AInt 0 \<notin> set [ANone, AStr '' '', AInt 7, AStr ''orgB'']
   \<and> first_non_empty_to_str (PSet [ANone, AStr '' '', AInt 7, AStr ''orgB''])
       = spec_first_non_empty [ANone, AStr '' '', AInt 7, AStr ''orgB'']
   \<and> spec_first_non_empty [ANone, AStr '' '', AInt 7, AStr ''orgB''] = Some ''7''"
proof -
  have h1: "\<forall>a \<in> set [ANone, AStr ''  '', AInt 0, ABool False]. \<not> usable a" by code_simp
  have h2: "usable (AStr '' orgA '')" by code_simp
  have v1: "strip (str_atom (AStr '' orgA '')) = ''orgA''" by code_simp
  have h3: "ABool False \<notin> set [ANone, AStr '' '', AInt 7, AStr ''orgB'']
            \<and> AInt 0 \<notin> set [ANone, AStr '' '', AInt 7, AStr ''orgB'']" by simp
  have v2: "spec_first_non_empty [ANone, AStr '' '', AInt 7, AStr ''orgB''] = Some ''7''"
    by code_simp
  from C4_first_usable_element
         [of _ "PList ([ANone, AStr ''  '', AInt 0, ABool False] @ AStr '' orgA '' # [AStr ''orgB''])"
             "[ANone, AStr ''  '', AInt 0, ABool False] @ AStr '' orgA '' # [AStr ''orgB'']"
             "[ANone, AStr ''  '', AInt 0, ABool False]" "AStr '' orgA ''" "[AStr ''orgB'']"]
    h1 h2
  have "first_non_empty_to_str (PList ([ANone, AStr ''  '', AInt 0, ABool False] @ AStr '' orgA '' # [AStr ''orgB'']))
       = Some (strip (str_atom (AStr '' orgA '')))" by blast
  then have a: "first_non_empty_to_str (PList ([ANone, AStr ''  '', AInt 0, ABool False] @ AStr '' orgA '' # [AStr ''orgB'']))
       = Some ''orgA''" by (simp only: v1)
  from C4_first_usable_element
         [of _ "PSet [ANone, AStr '' '', AInt 7, AStr ''orgB'']"
             "[ANone, AStr '' '', AInt 7, AStr ''orgB'']"] h3
  have b: "first_non_empty_to_str (PSet [ANone, AStr '' '', AInt 7, AStr ''orgB''])
       = spec_first_non_empty [ANone, AStr '' '', AInt 7, AStr ''orgB'']" by blast
  from h1 have "\<not> usable ANone \<and> \<not> usable (AStr ''  '') \<and> \<not> usable (AInt 0)
                 \<and> \<not> usable (ABool False)" by simp
  with h2 a h3 b v2 show ?thesis by blast
qed

text \<open>
  C5. \<open>validate_serie_access\<close> returns whether the serie is an element of the access
  list that \<open>get_profile_with_acl\<close> computes for the profile. It raises exactly when
  \<open>get_profile_with_acl\<close> raises, the same exception, so never because of the serie;
  and it makes the same point reads.
\<close>

theorem C5_access_is_membership:
  "(\<forall>profile acl. fst (get_profile_with_acl fs pid) = Inr (profile, acl) \<longrightarrow>
       fst (validate_serie_access fs pid serie) = Inr (AStr serie \<in> set acl))
   \<and> (\<forall>e. fst (get_profile_with_acl fs pid) = Inl e \<longrightarrow>
       fst (validate_serie_access fs pid serie) = Inl e)
   \<and> (\<forall>e. fst (validate_serie_access fs pid serie) = Inl e \<longrightarrow>
       fst (get_profile_with_acl fs pid) = Inl e)
   \<and> snd (validate_serie_access fs pid serie) = snd (get_profile_with_acl fs pid)"
  by (auto simp: validate_serie_access_def py_in_set split: prod.splits sum.splits)

theorem C5_access_is_membership_witness:
  "fst (get_profile_with_acl example_store ''p1'')
     = Inr ([(''org_uuid'', Atom (AStr '' orgA '')), (''orgs'', PList [AStr ''orgB'']),
             (''series_acl'', PList [AStr ''s1'', AStr ''s2'', AStr ''s1''])],
            [AStr ''s2'', AStr ''s3'', AStr ''s1''])
   \<and> fst (validate_serie_access example_store ''p1'' ''s3'') = Inr True
   \<and> fst (validate_serie_access example_store ''p1'' ''unknown'') = Inr False
   \<and> fst (get_profile_with_acl example_store ''nobody'') = Inl (ProfileNotFoundException ''nobody'')
   \<and> fst (validate_serie_access example_store ''nobody'' ''s3'')
       = Inl (ProfileNotFoundException ''nobody'')"
proof -
  have a: "fst (get_profile_with_acl example_store ''p1'')
     = Inr ([(''org_uuid'', Atom (AStr '' orgA '')), (''orgs'', PList [AStr ''orgB'']),
             (''series_acl'', PList [AStr ''s1'', AStr ''s2'', AStr ''s1''])],
            [AStr ''s2'', AStr ''s3'', AStr ''s1''])" by code_simp
  have b: "fst (get_profile_with_acl example_store ''nobody'')
             = Inl (ProfileNotFoundException ''nobody'')" by code_simp
  let ?acl = "[AStr ''s2'', AStr ''s3'', AStr ''s1'']"
  from C5_access_is_membership [of example_store "''p1''" "''s3''"] a
  have "fst (validate_serie_access example_store ''p1'' ''s3'') = Inr (AStr ''s3'' \<in> set ?acl)"
    by blast
  then have 1: "fst (validate_serie_access example_store ''p1'' ''s3'') = Inr True" by simp
  from C5_access_is_membership [of example_store "''p1''" "''unknown''"] a
  have "fst (validate_serie_access example_store ''p1'' ''unknown'')
          = Inr (AStr ''unknown'' \<in> set ?acl)"
    by blast
  then have 2: "fst (validate_serie_access example_store ''p1'' ''unknown'') = Inr False" by simp
  from C5_access_is_membership [of example_store "''nobody''" "''s3''"] b
  have 3: "fst (validate_serie_access example_store ''nobody'' ''s3'')
             = Inl (ProfileNotFoundException ''nobody'')" by blast
  from a b 1 2 3 show ?thesis by blast
qed




text \<open>
  C10. The organization identifier is the normalized \<open>org_uuid\<close> field when that gives
  one (the \<open>orgs\<close> field is then not consulted), and otherwise the normalized \<open>orgs\<close>
  field. The organization is read with that identifier, after the profile; when both
  fields give nothing the profile read is the only point read.
\<close>

theorem C10_org_uuid_before_orgs:
  assumes "get_document fs ''profiles'' pid = Inr (Some profile)" and "profile \<noteq> []"
  shows "(\<forall>s. first_non_empty_to_str (dict_get profile ''org_uuid'' (Atom ANone)) = Some s \<longrightarrow>
            extract_org_uuid profile = Some s
            \<and> snd (get_profile_with_acl fs pid) = [(''profiles'', pid), (''orgs'', s)])
       \<and> (first_non_empty_to_str (dict_get profile ''org_uuid'' (Atom ANone)) = None \<longrightarrow>
            extract_org_uuid profile = first_non_empty_to_str (dict_get profile ''orgs'' (Atom ANone))
            \<and> (\<forall>s. first_non_empty_to_str (dict_get profile ''orgs'' (Atom ANone)) = Some s \<longrightarrow>
                  snd (get_profile_with_acl fs pid) = [(''profiles'', pid), (''orgs'', s)])
            \<and> (first_non_empty_to_str (dict_get profile ''orgs'' (Atom ANone)) = None \<longrightarrow>
                  snd (get_profile_with_acl fs pid) = [(''profiles'', pid)]))"
proof -
  have r: "snd (get_profile_with_acl fs pid) =
             (''profiles'', pid) #
               (case extract_org_uuid profile of None \<Rightarrow> [] | Some org_uuid \<Rightarrow> [(''orgs'', org_uuid)])"
    by (simp add: get_profile_reads [OF assms] load_org_reads)
  show ?thesis
  proof (cases "first_non_empty_to_str (dict_get profile ''org_uuid'' (Atom ANone))")
    case (Some s)
    then have "extract_org_uuid profile = Some s" by (simp add: extract_org_uuid_eq)
    with r Some show ?thesis by simp
  next
    case None
    then have e: "extract_org_uuid profile
                    = first_non_empty_to_str (dict_get profile ''orgs'' (Atom ANone))"
      by (simp add: extract_org_uuid_eq)
    with r None show ?thesis by simp
  qed
qed

theorem C10_org_uuid_before_orgs_witness:
  "snd (get_profile_with_acl example_store ''p1'') = [(''profiles'', ''p1''), (''orgs'', ''orgA'')]
   \<and> snd (get_profile_with_acl example_store ''p3'') = [(''profiles'', ''p3''), (''orgs'', ''ghost'')]
   \<and> snd (get_profile_with_acl example_store ''p2'') = [(''profiles'', ''p2'')]"
proof -
  let ?p1 = "[(''org_uuid'', Atom (AStr '' orgA '')), (''orgs'', PList [AStr ''orgB'']),
              (''series_acl'', PList [AStr ''s1'', AStr ''s2'', AStr ''s1''])]"
  let ?p2 = "[(''orgs'', PList []), (''series_acl'', PList [AStr ''s5''])]"
  let ?p3 = "[(''orgs'', PList [ANone, AStr ''  '', AStr ''ghost'', AStr ''orgA'']),
              (''series_acl'', PList [AStr ''s1''])]"
  have g1: "get_document example_store ''profiles'' ''p1'' = Inr (Some ?p1)" by code_simp
  have g2: "get_document example_store ''profiles'' ''p2'' = Inr (Some ?p2)" by code_simp
  have g3: "get_document example_store ''profiles'' ''p3'' = Inr (Some ?p3)" by code_simp
  have n1: "?p1 \<noteq> []" and n2: "?p2 \<noteq> []" and n3: "?p3 \<noteq> []" by simp_all
  have a1: "first_non_empty_to_str (dict_get ?p1 ''org_uuid'' (Atom ANone)) = Some ''orgA''"
    by code_simp
  have a2: "first_non_empty_to_str (dict_get ?p2 ''org_uuid'' (Atom ANone)) = None"
    by code_simp
  have b2: "first_non_empty_to_str (dict_get ?p2 ''orgs'' (Atom ANone)) = None"
    by code_simp
  have a3: "first_non_empty_to_str (dict_get ?p3 ''org_uuid'' (Atom ANone)) = None"
    by code_simp
  have b3: "first_non_empty_to_str (dict_get ?p3 ''orgs'' (Atom ANone)) = Some ''ghost''"
    by code_simp
  from C10_org_uuid_before_orgs [OF g1 n1] a1
  have 1: "snd (get_profile_with_acl example_store ''p1'') = [(''profiles'', ''p1''), (''orgs'', ''orgA'')]"
    by blast
  from C10_org_uuid_before_orgs [OF g2 n2] a2 b2
  have 2: "snd (get_profile_with_acl example_store ''p2'') = [(''profiles'', ''p2'')]"
    by blast
  from C10_org_uuid_before_orgs [OF g3 n3] a3 b3
  have 3: "snd (get_profile_with_acl example_store ''p3'') = [(''profiles'', ''p3''), (''orgs'', ''ghost'')]"
    by blast
  from 1 2 3 show ?thesis by blast
qed

end
